theory Spec2Isabelle
  imports Main
begin

section \<open>The chain environment of the reward-shaping lesson\<close>

text \<open>
  The lesson \<^verbatim>\<open>ray-rllib/05-Custom-Environments-Reward-Shaping.ipynb\<close> defines two
  classes, \<^verbatim>\<open>ChainEnv\<close> and its subclass \<^verbatim>\<open>ShapedChainEnv\<close>. Both are embedded below
  as they are written in the notebook: Python integers are \<^typ>\<open>int\<close>, the object is a
  record that every method takes and returns, and a raised exception is the \<open>Inl\<close> side
  of the method's result. A method that raises leaves the object as it was, so the
  object is returned on both sides.
\<close>

subsection \<open>Data\<close>

text \<open>
  Modelled from the spec: the spaces of the external framework (\<^verbatim>\<open>gym.spaces\<close>), which
  the notebook imports and does not define. \<open>Discrete k\<close> is the space of the integers
  \<open>0, ..., k - 1\<close>, and \<open>contains\<close> is its membership check, the one \<^verbatim>\<open>step\<close> asserts.
\<close>

datatype space = Discrete int

fun contains :: "space \<Rightarrow> int \<Rightarrow> bool" where
  "contains (Discrete k) x = (0 \<le> x \<and> x < k)"

text \<open>
  The attributes of a \<^verbatim>\<open>ChainEnv\<close> object. \<open>horizon\<close> and \<open>counter\<close> are the attributes
  \<^verbatim>\<open>_horizon\<close> and \<^verbatim>\<open>_counter\<close>; a space attribute holding \<^verbatim>\<open>None\<close> is \<open>None\<close>.
\<close>

record ChainEnv =
  n :: int
  small_reward :: int
  large_reward :: int
  state :: int
  horizon :: int
  counter :: int
  action_space :: "space option"
  observation_space :: "space option"

datatype error = AttributeError | AssertionError

text \<open>The auxiliary dictionary of a step result, and the result tuple itself.\<close>

type_synonym info = "(string \<times> int) list"

type_synonym step_result = "int \<times> int \<times> bool \<times> info"

subsection \<open>The constructor\<close>

text \<open>\<^verbatim>\<open>dict.get(key, default)\<close> on a dictionary given as an association list.\<close>

definition dict_get :: "(string \<times> int) list \<Rightarrow> string \<Rightarrow> int \<Rightarrow> int" where
  "dict_get d key dflt = (case map_of d key of None \<Rightarrow> dflt | Some v \<Rightarrow> v)"

text \<open>
  \<^verbatim>\<open>_setup_spaces\<close> as the notebook has it: both spaces are set to \<^verbatim>\<open>None\<close>.
\<close>

definition setup_spaces :: "ChainEnv \<Rightarrow> ChainEnv" where
  "setup_spaces s = s\<lparr>action_space := None, observation_space := None\<rparr>"

text \<open>
  \<^verbatim>\<open>__init__(self, env_config = None)\<close>. \<^verbatim>\<open>env_config or {}\<close> replaces \<^verbatim>\<open>None\<close> and the
  empty dictionary by an empty dictionary.
\<close>

definition init :: "(string \<times> int) list option \<Rightarrow> ChainEnv" where
  "init env_config =
     (let cfg = (case env_config of None \<Rightarrow> [] | Some c \<Rightarrow> if c = [] then [] else c);
          n0 = dict_get cfg ''n'' 20;
          small = dict_get cfg ''small'' 2;
          large = dict_get cfg ''large'' 10
      in setup_spaces
           \<lparr>n = n0, small_reward = small, large_reward = large, state = 0,
            horizon = n0, counter = 0, action_space = None, observation_space = None\<rparr>)"

subsection \<open>The methods\<close>

text \<open>
  \<^verbatim>\<open>ChainEnv.step\<close>. The assertion calls \<^verbatim>\<open>contains\<close> on the action space: on \<^verbatim>\<open>None\<close> the
  attribute lookup raises, on a space that does not hold the action the assertion
  fails. Each of the three branches assigns the reward \<open>-1\<close>, as the notebook does.
\<close>

definition step :: "ChainEnv \<Rightarrow> int \<Rightarrow> (error + step_result) \<times> ChainEnv" where
  "step s action =
     (case action_space s of
        None \<Rightarrow> (Inl AttributeError, s)
      | Some sp \<Rightarrow>
          if \<not> contains sp action then (Inl AssertionError, s)
          else
            let (reward, s1) =
                  (if action = 1 then (- 1, s\<lparr>state := 0\<rparr>)
                   else if state s < n s - 1 then (- 1, s\<lparr>state := state s + 1\<rparr>)
                   else (- 1, s));
                s2 = s1\<lparr>counter := counter s1 + 1\<rparr>;
                dn = (counter s2 \<ge> horizon s2)
            in (Inr (state s2, reward, dn, []), s2))"

text \<open>\<^verbatim>\<open>ChainEnv.reset\<close>: returns the position after setting it and the counter to 0.\<close>

definition reset :: "ChainEnv \<Rightarrow> int \<times> ChainEnv" where
  "reset s = (let s1 = s\<lparr>state := 0\<rparr>; s2 = s1\<lparr>counter := 0\<rparr> in (state s2, s2))"

text \<open>\<^verbatim>\<open>ShapedChainEnv.step\<close>, the override of the subclass, from its own text.\<close>

definition shaped_step :: "ChainEnv \<Rightarrow> int \<Rightarrow> (error + step_result) \<times> ChainEnv" where
  "shaped_step s action =
     (case action_space s of
        None \<Rightarrow> (Inl AttributeError, s)
      | Some sp \<Rightarrow>
          if \<not> contains sp action then (Inl AssertionError, s)
          else
            let (reward, s1) =
                  (if action = 1 then (- 1, s\<lparr>state := 0\<rparr>)
                   else if state s < n s - 1 then (- 1, s\<lparr>state := state s + 1\<rparr>)
                   else (- 1, s));
                s2 = s1\<lparr>counter := counter s1 + 1\<rparr>;
                dn = (counter s2 \<ge> horizon s2)
            in (Inr (state s2, reward, dn, []), s2))"

subsection \<open>Runs\<close>

text \<open>
  A run calls \<open>step\<close> once per action of a list, each call on the object the previous
  one left. \<open>run\<close> keeps what every call returned together with the object after it;
  \<open>exec\<close> keeps the last object only.
\<close>

fun run :: "ChainEnv \<Rightarrow> int list \<Rightarrow> ((error + step_result) \<times> ChainEnv) list" where
  "run s [] = []"
| "run s (a # as) = step s a # run (snd (step s a)) as"

fun exec :: "ChainEnv \<Rightarrow> int list \<Rightarrow> ChainEnv" where
  "exec s [] = s"
| "exec s (a # as) = exec (snd (step s a)) as"

text \<open>The components of a call's result, when it returned.\<close>

fun position_of :: "error + step_result \<Rightarrow> int option" where
  "position_of (Inl e) = None"
| "position_of (Inr (p, r, d, i)) = Some p"

fun reward_of :: "error + step_result \<Rightarrow> int option" where
  "reward_of (Inl e) = None"
| "reward_of (Inr (p, r, d, i)) = Some r"

fun done_of :: "error + step_result \<Rightarrow> bool option" where
  "done_of (Inl e) = None"
| "done_of (Inr (p, r, d, i)) = Some d"

text \<open>The position is a cell of the chain.\<close>

definition in_chain :: "ChainEnv \<Rightarrow> bool" where
  "in_chain s = (0 \<le> state s \<and> state s \<le> n s - 1)"


text \<open>
  The object the first step of the exercise asks for: the constructor's object with the
  action space \<^verbatim>\<open>Discrete(2)\<close> and an observation space over the cells.
\<close>

definition with_spaces :: "ChainEnv \<Rightarrow> ChainEnv" where
  "with_spaces s = s\<lparr>action_space := Some (Discrete 2), observation_space := Some (Discrete (n s))\<rparr>"

text \<open>
  The position an accepted action leads to: the three branches of \<open>step\<close>, read for the
  assignment to the position alone.
\<close>

definition next_position :: "ChainEnv \<Rightarrow> int \<Rightarrow> int" where
  "next_position s a =
     (if a = 1 then 0 else if state s < n s - 1 then state s + 1 else state s)"


section \<open>What one call of \<open>step\<close> does\<close>

lemma step_None: "action_space s = None \<Longrightarrow> step s a = (Inl AttributeError, s)"
  by (simp add: step_def)

lemma step_rejected:
  "action_space s = Some sp \<Longrightarrow> \<not> contains sp a \<Longrightarrow> step s a = (Inl AssertionError, s)"
  by (simp add: step_def)

lemma step_accepted:
  "action_space s = Some sp \<Longrightarrow> contains sp a \<Longrightarrow>
   step s a = (Inr (next_position s a, - 1, horizon s \<le> counter s + 1, []),
               s\<lparr>state := next_position s a, counter := counter s + 1\<rparr>)"
  by (simp add: step_def next_position_def Let_def)

lemma step_cases:
  obtains (none) "action_space s = None" "step s a = (Inl AttributeError, s)"
  | (rejected) sp where "action_space s = Some sp" "\<not> contains sp a"
      "step s a = (Inl AssertionError, s)"
  | (accepted) sp where "action_space s = Some sp" "contains sp a"
      "step s a = (Inr (next_position s a, - 1, horizon s \<le> counter s + 1, []),
                   s\<lparr>state := next_position s a, counter := counter s + 1\<rparr>)"
  using step_None step_rejected step_accepted by (cases "action_space s") blast+

text \<open>
  With the action space \<^verbatim>\<open>Discrete(2)\<close> in place, the calls that return are those with
  action 0 or 1.
\<close>

lemma step_accepts_iff:
  "action_space s = Some (Discrete 2) \<Longrightarrow>
   (\<exists>res. fst (step s a) = Inr res) = (a = 0 \<or> a = 1)"
  by (rule step_cases [of s a]) auto

text \<open>
  The position after each kind of accepted action is the one the lesson describes; the
  reward is \<open>-1\<close> in all three.
\<close>

lemma step_retreat:
  "action_space s = Some sp \<Longrightarrow> contains sp 1 \<Longrightarrow>
   state (snd (step s 1)) = 0 \<and> position_of (fst (step s 1)) = Some 0 \<and>
   reward_of (fst (step s 1)) = Some (- 1)"
  by (simp add: step_accepted next_position_def)

lemma step_advance:
  "action_space s = Some sp \<Longrightarrow> contains sp 0 \<Longrightarrow> state s < n s - 1 \<Longrightarrow>
   state (snd (step s 0)) = state s + 1 \<and>
   position_of (fst (step s 0)) = Some (state s + 1) \<and>
   reward_of (fst (step s 0)) = Some (- 1)"
  by (simp add: step_accepted next_position_def)

lemma step_boundary:
  "action_space s = Some sp \<Longrightarrow> contains sp 0 \<Longrightarrow> state s = n s - 1 \<Longrightarrow>
   state (snd (step s 0)) = n s - 1 \<and> position_of (fst (step s 0)) = Some (n s - 1) \<and>
   reward_of (fst (step s 0)) = Some (- 1)"
  by (simp add: step_accepted next_position_def)

subsection \<open>What a call leaves alone\<close>

lemma step_frame:
  "n (snd (step s a)) = n s" "small_reward (snd (step s a)) = small_reward s"
  "large_reward (snd (step s a)) = large_reward s" "horizon (snd (step s a)) = horizon s"
  "action_space (snd (step s a)) = action_space s"
  "observation_space (snd (step s a)) = observation_space s"
  by (rule step_cases [of s a]; simp)+

lemma step_changes:
  "snd (step s a) = s\<lparr>state := state (snd (step s a)), counter := counter (snd (step s a))\<rparr>"
  by (rule step_cases [of s a]) simp_all

lemma exec_frame:
  "n (exec s acts) = n s \<and> small_reward (exec s acts) = small_reward s \<and>
   large_reward (exec s acts) = large_reward s \<and> horizon (exec s acts) = horizon s \<and>
   action_space (exec s acts) = action_space s \<and>
   observation_space (exec s acts) = observation_space s"
  by (induction acts arbitrary: s) (simp_all add: step_frame)

lemma exec_changes:
  "exec s acts = s\<lparr>state := state (exec s acts), counter := counter (exec s acts)\<rparr>"
proof (induction acts arbitrary: s)
  case Nil
  show ?case by simp
next
  case (Cons a acts)
  have "exec (snd (step s a)) acts =
        (snd (step s a))\<lparr>state := state (exec (snd (step s a)) acts),
                          counter := counter (exec (snd (step s a)) acts)\<rparr>"
    by (rule Cons.IH)
  also have "\<dots> = s\<lparr>state := state (exec (snd (step s a)) acts),
                     counter := counter (exec (snd (step s a)) acts)\<rparr>"
    by (subst step_changes [of s a]) simp
  finally show ?case by simp
qed

subsection \<open>The position along a run\<close>

lemma step_in_chain: "in_chain s \<Longrightarrow> in_chain (snd (step s a))"
  by (rule step_cases [of s a]) (auto simp: in_chain_def next_position_def)

lemma step_position_in_chain:
  "in_chain s \<Longrightarrow> position_of (fst (step s a)) = Some p \<Longrightarrow> 0 \<le> p \<and> p \<le> n s - 1"
  by (rule step_cases [of s a]) (auto simp: in_chain_def next_position_def)

lemma run_in_chain:
  "in_chain s \<Longrightarrow> (r, s') \<in> set (run s acts) \<Longrightarrow>
   in_chain s' \<and> n s' = n s \<and> (\<forall>p. position_of r = Some p \<longrightarrow> 0 \<le> p \<and> p \<le> n s - 1)"
proof (induction acts arbitrary: s)
  case Nil
  then show ?case by simp
next
  case (Cons a acts)
  from Cons.prems(2)
  consider "(r, s') = step s a" | "(r, s') \<in> set (run (snd (step s a)) acts)"
    by auto
  then show ?case
  proof cases
    case 1
    then have "r = fst (step s a)" "s' = snd (step s a)"
      by (metis fst_conv, metis snd_conv)
    then show ?thesis
      using Cons.prems(1) step_in_chain step_position_in_chain step_frame(1) by blast
  next
    case 2
    have "in_chain (snd (step s a))" using Cons.prems(1) by (rule step_in_chain)
    from Cons.IH [OF this 2] show ?thesis by (simp add: step_frame)
  qed
qed

subsection \<open>The termination flag along a run\<close>

lemma run_done:
  "action_space s = Some sp \<Longrightarrow> \<forall>x \<in> set acts. contains sp x \<Longrightarrow> k < length acts \<Longrightarrow>
   done_of (fst (run s acts ! k)) = Some (horizon s \<le> counter s + int k + 1)"
proof (induction acts arbitrary: s k)
  case Nil
  then show ?case by simp
next
  case (Cons a acts)
  have ok: "contains sp a" using Cons.prems(2) by simp
  note st = step_accepted [OF Cons.prems(1) ok]
  show ?case
  proof (cases k)
    case 0
    then show ?thesis by (simp add: st)
  next
    case (Suc j)
    have "action_space (snd (step s a)) = Some sp"
      by (simp add: step_frame Cons.prems(1))
    moreover have "\<forall>x \<in> set acts. contains sp x" using Cons.prems(2) by simp
    moreover have "j < length acts" using Cons.prems(3) Suc by simp
    ultimately have "done_of (fst (run (snd (step s a)) acts ! j)) =
        Some (horizon (snd (step s a)) \<le> counter (snd (step s a)) + int j + 1)"
      by (rule Cons.IH)
    then show ?thesis using Suc by (simp add: st)
  qed
qed

text \<open>
  Where the action space is in place and holds the actions, the counter and the flag
  behave as the lesson describes: each call adds one to the counter, and call number
  \<open>k + 1\<close> of a run from \<open>reset\<close> returns the flag \<open>N \<le> k + 1\<close>.
\<close>

lemma accepted_counter_and_done:
  assumes "action_space s = Some sp" and "contains sp a"
    and "\<forall>x \<in> set acts. contains sp x" and "horizon s = n s"
  shows "counter (snd (step s a)) = counter s + 1 \<and>
         done_of (fst (step s a)) = Some (horizon s \<le> counter (snd (step s a))) \<and>
         (\<forall>k < length acts.
            done_of (fst (run (snd (reset s)) acts ! k)) = Some (n s \<le> int k + 1))"
proof -
  have sp: "action_space (snd (reset s)) = Some sp"
    using assms(1) by (simp add: reset_def)
  have "done_of (fst (run (snd (reset s)) acts ! k)) = Some (n s \<le> int k + 1)"
    if "k < length acts" for k
    using run_done [OF sp assms(3) that] assms(4) by (simp add: reset_def)
  then show ?thesis
    by (simp add: step_accepted [OF assms(1,2)])
qed

lemma accepted_counter_and_done_example:
  "action_space (with_spaces (init (Some [(''n'', 3)]))) = Some (Discrete 2) \<and>
   contains (Discrete 2) 1 \<and>
   list_all (contains (Discrete 2)) [0, 1, 0, 0] \<and>
   horizon (with_spaces (init (Some [(''n'', 3)]))) = n (with_spaces (init (Some [(''n'', 3)]))) \<and>
   counter (snd (step (with_spaces (init (Some [(''n'', 3)]))) 1)) = 1 \<and>
   done_of (fst (step (with_spaces (init (Some [(''n'', 3)]))) 1)) = Some False \<and>
   map (done_of \<circ> fst) (run (snd (reset (with_spaces (init (Some [(''n'', 3)]))))) [0, 1, 0, 0])
     = [Some False, Some False, Some True, Some True]"
  using accepted_counter_and_done
    [of "with_spaces (init (Some [(''n'', 3)]))" "Discrete 2" 1 "[0, 1, 0, 0]"]
  by (simp add: with_spaces_def init_def setup_spaces_def dict_get_def reset_def step_def)

subsection \<open>Two objects in the same episode state, and objects in a store\<close>





section \<open>The rewards, the action check and the termination flag of the notebook's class\<close>

text \<open>
  C1: \<open>step\<close> with action 1 sets the position to 0 and returns the small reward, 2 with
  the default configuration. The notebook's class does not: on the constructor's own
  object the call raises, the action space being \<^verbatim>\<open>None\<close>, and once the action space is
  \<^verbatim>\<open>Discrete(2)\<close> the call returns position 0 with the reward \<open>-1\<close>, although the small
  reward of that object is 2.
\<close>

theorem retreat_reward_in_notebook:
  "small_reward (with_spaces (init None)) = 2 \<and>
   step (init None) 1 = (Inl AttributeError, init None) \<and>
   fst (step (with_spaces (init None)) 1) = Inr (0, - 1, False, [])"
  by (simp add: step_def init_def setup_spaces_def dict_get_def with_spaces_def)

text \<open>
  C2: \<open>step\<close> with action 0 at a position below \<open>N - 1\<close> increments the position and
  returns the reward 0. The notebook's class increments the position, from 0 to 1 on the
  default object with the action space in place, and returns the reward \<open>-1\<close>.
\<close>

theorem advance_reward_in_notebook:
  "state (with_spaces (init None)) < n (with_spaces (init None)) - 1 \<and>
   fst (step (with_spaces (init None)) 0) = Inr (1, - 1, False, [])"
  by (simp add: step_def init_def setup_spaces_def dict_get_def with_spaces_def)

text \<open>
  C3: \<open>step\<close> with action 0 at position \<open>N - 1\<close> keeps the position and returns the large
  reward, 10 with the default configuration. After nineteen advances the default object
  with the action space in place is at position 19; the notebook's class keeps it there
  and returns the reward \<open>-1\<close>, although the large reward of that object is 10.
\<close>

theorem boundary_reward_in_notebook:
  "large_reward (exec (with_spaces (init None)) (replicate 19 0)) = 10 \<and>
   state (exec (with_spaces (init None)) (replicate 19 0)) = n (init None) - 1 \<and>
   fst (step (exec (with_spaces (init None)) (replicate 19 0)) 0) = Inr (19, - 1, True, [])"
  by code_simp

text \<open>
  C6: \<open>step\<close> is rejected exactly for the actions outside \<open>{0, 1}\<close>. On the object the
  notebook's constructor builds, the calls with the actions 0 and 1 raise as well:
  \<^verbatim>\<open>_setup_spaces\<close> leaves the action space \<^verbatim>\<open>None\<close>, and the lookup of \<^verbatim>\<open>contains\<close> on it
  fails before any membership check.
\<close>

theorem step_raises_in_notebook:
  "action_space (init None) = None \<and>
   fst (step (init None) 0) = Inl AttributeError \<and>
   fst (step (init None) 1) = Inl AttributeError \<and>
   snd (step (init None) 0) = init None"
  by (simp add: step_def init_def setup_spaces_def dict_get_def)

text \<open>
  C4: every call of \<open>step\<close> increments the step counter by one, and in a run from
  \<open>reset\<close> the flag returned is false before the \<open>N\<close>-th call and true at it. On
  the object the notebook's constructor builds (\<open>N = 20\<close>) no call of such a run
  returns: each raises on the \<^verbatim>\<open>None\<close> action space, no flag is returned at the
  twentieth call either, and the counter is still 0 after twenty calls.
\<close>

theorem termination_in_notebook:
  "n (init None) = 20 \<and>
   fst (step (snd (reset (init None))) 0) = Inl AttributeError \<and>
   counter (snd (step (snd (reset (init None))) 0)) = 0 \<and>
   map (done_of \<circ> fst) (run (snd (reset (init None))) (replicate 20 0)) = replicate 20 None \<and>
   counter (exec (snd (reset (init None))) (replicate 20 0)) = 0"
  by code_simp

section \<open>Invariant, results, determinism and frame\<close>

text \<open>
  C5: for a chain length \<open>N \<ge> 1\<close> the position stays within \<open>[0, N - 1]\<close>: \<open>reset\<close>
  establishes the bound, \<open>step\<close> preserves it, and so it holds of the object after every
  call of a run from \<open>reset\<close> and of every position such a call returns.
\<close>

theorem position_stays_in_chain:
  assumes "1 \<le> n s"
  shows "in_chain (snd (reset s)) \<and> (in_chain s \<longrightarrow> in_chain (snd (step s a))) \<and>
         (\<forall>(r, s') \<in> set (run (snd (reset s)) acts).
            in_chain s' \<and> (\<forall>p. position_of r = Some p \<longrightarrow> 0 \<le> p \<and> p \<le> n s - 1))"
proof -
  have r: "in_chain (snd (reset s))" using assms by (simp add: reset_def in_chain_def)
  have nr: "n (snd (reset s)) = n s" by (simp add: reset_def)
  have "in_chain s' \<and> (\<forall>p. position_of r = Some p \<longrightarrow> 0 \<le> p \<and> p \<le> n s - 1)"
    if "(r, s') \<in> set (run (snd (reset s)) acts)" for r s'
    using run_in_chain [OF r that] nr by simp
  then show ?thesis using r step_in_chain by blast
qed

theorem position_stays_in_chain_witness:
  "1 \<le> n (with_spaces (init (Some [(''n'', 3)]))) \<and>
   in_chain (with_spaces (init (Some [(''n'', 3)]))) \<and>
   in_chain (snd (step (with_spaces (init (Some [(''n'', 3)]))) 0)) \<and>
   map (position_of \<circ> fst)
     (run (snd (reset (with_spaces (init (Some [(''n'', 3)]))))) [0, 0, 0, 0, 1, 0])
     = [Some 1, Some 2, Some 2, Some 2, Some 0, Some 1] \<and>
   list_all (in_chain \<circ> snd)
     (run (snd (reset (with_spaces (init (Some [(''n'', 3)]))))) [0, 0, 0, 0, 1, 0])"
  using position_stays_in_chain
    [of "with_spaces (init (Some [(''n'', 3)]))" 0 "[0, 0, 0, 0, 1, 0]"]
  by (simp add: with_spaces_def init_def setup_spaces_def dict_get_def reset_def step_def
      in_chain_def)

text \<open>
  C7: \<open>reset\<close> returns the position 0 and leaves the object at position 0 with the
  counter 0, which after any run since the constructor is the object the constructor
  built; and every call of \<open>step\<close> that returns gives the new position, a reward, a
  termination flag and the empty dictionary.
\<close>

theorem reset_and_step_results:
  "reset s = (0, s\<lparr>state := 0, counter := 0\<rparr>) \<and>
   snd (reset (exec (init cfg) acts)) = init cfg \<and>
   (\<forall>res s'. step s a = (Inr res, s') \<longrightarrow> (\<exists>r d. res = (state s', r, d, [])))"
proof -
  have 1: "reset s = (0, s\<lparr>state := 0, counter := 0\<rparr>)" by (simp add: reset_def)
  have i: "init cfg = (init cfg)\<lparr>state := 0, counter := 0\<rparr>"
    by (simp add: init_def setup_spaces_def Let_def)
  have "snd (reset (exec (init cfg) acts)) = (exec (init cfg) acts)\<lparr>state := 0, counter := 0\<rparr>"
    by (simp add: reset_def)
  also have "\<dots> = (init cfg)\<lparr>state := 0, counter := 0\<rparr>"
    by (subst exec_changes) simp
  finally have 2: "snd (reset (exec (init cfg) acts)) = init cfg" using i by simp
  have 3: "\<exists>r d. res = (state s', r, d, [])" if "step s a = (Inr res, s')" for res s'
    by (rule step_cases [of s a]) (use that in auto)
  from 1 2 3 show ?thesis by blast
qed

theorem reset_and_step_results_witness:
  "step (with_spaces (init None)) 0
     = (Inr (1, - 1, False, []), (with_spaces (init None))\<lparr>state := 1, counter := 1\<rparr>) \<and>
   (\<exists>r d. (1, - 1, False, []) =
      (state ((with_spaces (init None))\<lparr>state := 1, counter := 1\<rparr>), r, d, [])) \<and>
   fst (reset ((with_spaces (init None))\<lparr>state := 1, counter := 1\<rparr>)) = 0 \<and>
   snd (reset (exec (init None) [0, 1])) = init None"
proof -
  have st: "step (with_spaces (init None)) 0
     = (Inr (1, - 1, False, []), (with_spaces (init None))\<lparr>state := 1, counter := 1\<rparr>)"
    by (simp add: with_spaces_def init_def setup_spaces_def dict_get_def step_def)
  note at_start = reset_and_step_results [of "with_spaces (init None)" None "[0, 1]" 0]
  note at_one =
    reset_and_step_results
      [of "(with_spaces (init None))\<lparr>state := 1, counter := 1\<rparr>" None "[0, 1]" 0]
  from at_start st
  have "\<exists>r d. (1, - 1, False, []) =
      (state ((with_spaces (init None))\<lparr>state := 1, counter := 1\<rparr>), r, d, [])"
    by blast
  moreover from at_one
  have "fst (reset ((with_spaces (init None))\<lparr>state := 1, counter := 1\<rparr>)) = 0"
    by simp
  moreover from at_start have "snd (reset (exec (init None) [0, 1])) = init None"
    by blast
  ultimately show ?thesis using st by blast
qed



text \<open>
  C9: \<open>ShapedChainEnv.step\<close>, as the notebook has it, is \<open>ChainEnv.step\<close>: on every
  object and every action the two return the same result and leave the same object.
\<close>

theorem shaped_step_is_step: "shaped_step s a = step s a"
  by (simp add: shaped_step_def step_def)

text \<open>
  C10: neither \<open>step\<close> nor \<open>reset\<close>, nor any run of steps, changes the chain length, the
  two rewards or the horizon: the object afterwards is the object before with a new
  position and a new counter. Without a configuration the constructor sets the chain
  length 20, the small reward 2, the large reward 10 and the horizon 20.
\<close>

theorem configuration_unchanged:
  "(let s' = snd (step s a) in
      n s' = n s \<and> small_reward s' = small_reward s \<and> large_reward s' = large_reward s \<and>
      horizon s' = horizon s \<and> s' = s\<lparr>state := state s', counter := counter s'\<rparr>) \<and>
   (let s' = snd (reset s) in
      n s' = n s \<and> small_reward s' = small_reward s \<and> large_reward s' = large_reward s \<and>
      horizon s' = horizon s \<and> s' = s\<lparr>state := state s', counter := counter s'\<rparr>) \<and>
   (let s' = exec s acts in
      n s' = n s \<and> small_reward s' = small_reward s \<and> large_reward s' = large_reward s \<and>
      horizon s' = horizon s \<and> s' = s\<lparr>state := state s', counter := counter s'\<rparr>) \<and>
   n (init None) = 20 \<and> small_reward (init None) = 2 \<and> large_reward (init None) = 10 \<and>
   horizon (init None) = 20"
proof -
  have d: "n (init None) = 20 \<and> small_reward (init None) = 2 \<and>
           large_reward (init None) = 10 \<and> horizon (init None) = 20"
    by (simp add: init_def setup_spaces_def dict_get_def)
  have r: "snd (reset s) = s\<lparr>state := 0, counter := 0\<rparr>" by (simp add: reset_def)
  show ?thesis
    unfolding Let_def
    using d step_changes [of s a] exec_changes [of s acts] exec_frame [of s acts]
    by (simp add: step_frame r)
qed

end
